theory Spec2Isabelle
  imports Main
begin

section \<open>Column metadata (file-metadata.ts)\<close>

text \<open>
  Strings are lists of code units; \<open>value.length\<close> is \<^const>\<open>length\<close>.
  Numbers that the code handles are string lengths, set sizes and the cardinality
  ceiling: they are modelled as \<^typ>\<open>int\<close>.
  A JavaScript \<open>Set<string>\<close> iterates in insertion order and holds no value twice:
  it is modelled as the list of its members in insertion order.
\<close>

record ColumnMetadata =
  maxLength :: int
  name :: string
  unbounded :: bool
  uniqueValues :: "string list"

text \<open>\<open>Set.prototype.has\<close>, \<open>Set.prototype.add\<close> and \<open>new Set(iterable)\<close>.\<close>

definition set_has :: "string list \<Rightarrow> string \<Rightarrow> bool" where
  "set_has s v = (v \<in> set s)"

definition set_add :: "string \<Rightarrow> string list \<Rightarrow> string list" where
  "set_add v s = (if set_has s v then s else s @ [v])"

definition new_Set :: "string list \<Rightarrow> string list" where
  "new_Set xs = fold set_add xs []"

text \<open>\<open>new ColumnMetadata(name)\<close>: the field initialisers, then the constructor body.\<close>

definition new_ColumnMetadata :: "string \<Rightarrow> ColumnMetadata" where
  "new_ColumnMetadata n =
     \<lparr>maxLength = 0, name = n, unbounded = False, uniqueValues = []\<rparr>"

text \<open>The getter \<open>cardinality\<close>: \<open>null\<close> is \<^const>\<open>None\<close>.\<close>

definition cardinality :: "ColumnMetadata \<Rightarrow> int option" where
  "cardinality c = (if unbounded c then None else Some (int (length (uniqueValues c))))"

text \<open>\<open>add(value, maxCardinality)\<close>; the mutated object is returned.\<close>

definition add :: "ColumnMetadata \<Rightarrow> string \<Rightarrow> int \<Rightarrow> ColumnMetadata" where
  "add c v maxCardinality =
     (let c1 = (if maxLength c < int (length v) then c\<lparr>maxLength := int (length v)\<rparr> else c)
      in if \<not> unbounded c1 then
           (let c2 = c1\<lparr>uniqueValues := set_add v (uniqueValues c1)\<rparr>
            in if int (length (uniqueValues c2)) > maxCardinality
               then c2\<lparr>unbounded := True, uniqueValues := []\<rparr>
               else c2)
         else c1)"

text \<open>A finite sequence of \<open>add\<close> calls, each with its own ceiling.\<close>

fun adds :: "ColumnMetadata \<Rightarrow> (string \<times> int) list \<Rightarrow> ColumnMetadata" where
  "adds c [] = c"
| "adds c ((v, m) # ops) = adds (add c v m) ops"

subsection \<open>JSON objects\<close>

text \<open>
  The values that \<open>fromJson\<close> inspects with \<open>typeof\<close> and \<open>Array.isArray\<close>.
  An object is the list of its properties; reading a property that is absent
  gives \<open>undefined\<close>, here \<^const>\<open>None\<close> of \<^const>\<open>map_of\<close>.
\<close>

datatype json =
    JNull
  | JBool bool
  | JNum int
  | JStr string
  | JArr "json list"
  | JObj "(string \<times> json) list"

datatype error = Error string

definition missingOrInvalidField :: "string \<Rightarrow> error" where
  "missingOrInvalidField field = Error (''Missing or invalid type for field: '' @ field @ ''.'')"

fun is_number :: "json option \<Rightarrow> bool" where
  "is_number (Some (JNum _)) = True"
| "is_number _ = False"

fun is_string :: "json option \<Rightarrow> bool" where
  "is_string (Some (JStr _)) = True"
| "is_string _ = False"

fun is_boolean :: "json option \<Rightarrow> bool" where
  "is_boolean (Some (JBool _)) = True"
| "is_boolean _ = False"

fun is_string_array :: "json option \<Rightarrow> bool" where
  "is_string_array (Some (JArr xs)) = (\<not> list_ex (\<lambda>x. \<not> is_string (Some x)) xs)"
| "is_string_array _ = False"

fun the_num :: "json option \<Rightarrow> int" where
  "the_num (Some (JNum n)) = n"
| "the_num _ = 0"

fun the_str :: "json \<Rightarrow> string" where
  "the_str (JStr s) = s"
| "the_str _ = []"

fun the_bool :: "json option \<Rightarrow> bool" where
  "the_bool (Some (JBool b)) = b"
| "the_bool _ = False"

fun the_strs :: "json option \<Rightarrow> string list" where
  "the_strs (Some (JArr xs)) = map the_str xs"
| "the_strs _ = []"

text \<open>\<open>ColumnMetadata.fromJson\<close>: the four checks in the order of the source, each
  throwing at once; the throw is the \<^const>\<open>Inl\<close> result.\<close>

definition fromJson :: "(string \<times> json) list \<Rightarrow> error + ColumnMetadata" where
  "fromJson obj =
     (if \<not> is_number (map_of obj ''maxLength'') then Inl (missingOrInvalidField ''maxLength'')
      else if \<not> is_string (map_of obj ''name'') then Inl (missingOrInvalidField ''name'')
      else if \<not> is_boolean (map_of obj ''unbounded'') then Inl (missingOrInvalidField ''unbounded'')
      else if \<not> is_string_array (map_of obj ''uniqueValues'')
        then Inl (missingOrInvalidField ''uniqueValues'')
      else Inr ((new_ColumnMetadata (the_str (the (map_of obj ''name''))))
             \<lparr>maxLength := the_num (map_of obj ''maxLength''),
              unbounded := the_bool (map_of obj ''unbounded''),
              uniqueValues := new_Set (the_strs (map_of obj ''uniqueValues''))\<rparr>))"

text \<open>\<open>toJSON\<close>: the object literal, its properties in the order of the source.\<close>

definition toJSON :: "ColumnMetadata \<Rightarrow> (string \<times> json) list" where
  "toJSON c =
     [(''cardinality'', (case cardinality c of None \<Rightarrow> JNull | Some n \<Rightarrow> JNum n)),
      (''maxLength'', JNum (maxLength c)),
      (''name'', JStr (name c)),
      (''unbounded'', JBool (unbounded c)),
      (''uniqueValues'', JArr (map JStr (uniqueValues c)))]"

text \<open>
  The rule of the specification for deserialization, in its words: the four authoritative
  fields in their fixed order, each with the type it must have; the first of them that is
  missing or has the wrong type is the field that the error names.
\<close>

definition spec_authoritative_fields :: "(string \<times> (json option \<Rightarrow> bool)) list" where
  "spec_authoritative_fields =
     [(''maxLength'', is_number), (''name'', is_string),
      (''unbounded'', is_boolean), (''uniqueValues'', is_string_array)]"

definition spec_first_offending :: "(string \<times> json) list \<Rightarrow> string option" where
  "spec_first_offending obj =
     map_option fst (find (\<lambda>(f, ok). \<not> ok (map_of obj f)) spec_authoritative_fields)"

section \<open>Anchor columns (anchor-column.ts)\<close>

record AnchorColumn =
  previousColumns :: nat
  metadata :: "ColumnMetadata option"

text \<open>
  \<open>getAnchorColumns\<close>: the loop over \<open>columns\<close>, with the columns from index \<open>i\<close> on as
  the list argument; \<open>i === columns.length\<close> after \<open>i++\<close> says that none is left.
\<close>

fun getAnchorColumns_loop ::
  "ColumnMetadata list \<Rightarrow> nat \<Rightarrow> AnchorColumn list \<Rightarrow> AnchorColumn list" where
  "getAnchorColumns_loop [] prev result = result"
| "getAnchorColumns_loop (c # cs) prev result =
     (if \<not> unbounded c
      then getAnchorColumns_loop cs 0
             (result @ [\<lparr>previousColumns = prev, metadata = Some c\<rparr>])
      else (let prev' = prev + 1
            in if cs = []
               then getAnchorColumns_loop cs prev'
                      (result @ [\<lparr>previousColumns = prev', metadata = None\<rparr>])
               else getAnchorColumns_loop cs prev' result))"

definition getAnchorColumns :: "ColumnMetadata list \<Rightarrow> AnchorColumn list" where
  "getAnchorColumns columns = getAnchorColumns_loop columns 0 []"

section \<open>Line parser (line-parser.ts)\<close>

subsection \<open>JavaScript values and arrays\<close>

text \<open>
  Reading an array past its end gives \<open>undefined\<close>, and so does reading a hole.
  An array that was written past its end has holes: a cell is \<^const>\<open>None\<close> for a hole
  and \<^const>\<open>Some\<close> of the stored value otherwise.
\<close>

datatype jsval = Undefined | Str string

type_synonym js_array = "jsval option list"

text \<open>\<open>cols[i]\<close>, for the array of strings that \<open>split\<close> returned.\<close>

definition js_get :: "string list \<Rightarrow> nat \<Rightarrow> jsval" where
  "js_get cols i = (if i < length cols then Str (cols ! i) else Undefined)"

text \<open>\<open>result[i]\<close> read as a value.\<close>

definition cell_get :: "js_array \<Rightarrow> nat \<Rightarrow> jsval" where
  "cell_get r i =
     (if i < length r then (case r ! i of None \<Rightarrow> Undefined | Some v \<Rightarrow> v) else Undefined)"

text \<open>The conversion to a string that \<open>+\<close> applies to an operand beside a string.\<close>

fun to_string :: "jsval \<Rightarrow> string" where
  "to_string Undefined = ''undefined''"
| "to_string (Str s) = s"

text \<open>\<open>result.push(v)\<close>.\<close>

definition push :: "js_array \<Rightarrow> jsval \<Rightarrow> js_array" where
  "push r v = r @ [Some v]"

text \<open>\<open>result[i] = v\<close>: an index at or past the length extends the array, the cells
  in between being holes.\<close>

definition array_set :: "js_array \<Rightarrow> nat \<Rightarrow> jsval \<Rightarrow> js_array" where
  "array_set r i v =
     (if i < length r then r[i := Some v]
      else r @ replicate (i - length r) None @ [Some v])"

text \<open>
  \<open>result[result.length - 1] += sep + v\<close>. On the empty array the index is \<open>-1\<close>,
  which is no array index: the assignment sets a property named \<open>-1\<close> and leaves the
  length and the elements as they are.
\<close>

definition append_to_last :: "string \<Rightarrow> js_array \<Rightarrow> jsval \<Rightarrow> js_array" where
  "append_to_last sep r v =
     (if r = [] then r
      else array_set r (length r - 1)
             (Str (to_string (cell_get r (length r - 1)) @ (sep @ to_string v))))"

text \<open>\<open>uniqueValues.has(v)\<close>: \<open>undefined\<close> is no member of a set of strings.\<close>

fun has :: "string list \<Rightarrow> jsval \<Rightarrow> bool" where
  "has s (Str v) = set_has s v"
| "has s Undefined = False"

text \<open>
  \<open>s.split(sep)\<close> for a string separator: the pieces between the occurrences of \<open>sep\<close>
  found from left to right; an empty separator splits into code units.
\<close>

function split_from :: "string \<Rightarrow> string \<Rightarrow> string \<Rightarrow> string list" where
  "split_from sep cur s =
     (if s = [] then [cur]
      else if sep \<noteq> [] \<and> take (length sep) s = sep
        then cur # split_from sep [] (drop (length sep) s)
      else split_from sep (cur @ [hd s]) (tl s))"
  by pat_completeness auto
termination
  by (relation "measure (\<lambda>(sep, cur, s). length s)") auto

declare split_from.simps [simp del]

definition js_split :: "string \<Rightarrow> string \<Rightarrow> string list" where
  "js_split s sep = (if sep = [] then map (\<lambda>c. [c]) s else split_from sep [] s)"

subsection \<open>File metadata as the parser reads it\<close>

record FileMetadata =
  columns :: "ColumnMetadata list"

text \<open>
  Modelled from the spec: the getter \<open>anchorColumns\<close> of \<open>FileMetadata\<close>, which the parser
  reads, is missing from the class as given; the anchor list is derived once from the
  column statistics, by \<open>getAnchorColumns\<close>.
\<close>

definition anchorColumns :: "FileMetadata \<Rightarrow> AnchorColumn list" where
  "anchorColumns md = getAnchorColumns (columns md)"

subsection \<open>Alignment: \<open>#tryParseColumns\<close>\<close>

text \<open>The state of the walk over the anchors is the pair of \<open>colIndex\<close> and \<open>result\<close>.\<close>

text \<open>\<open>for (i = 0; i < anchor.previousColumns; ++i) result.push(cols[colIndex++])\<close>,
  the first argument counting the iterations left.\<close>

fun pushPrevious :: "string list \<Rightarrow> nat \<Rightarrow> nat \<times> js_array \<Rightarrow> nat \<times> js_array" where
  "pushPrevious cols 0 st = st"
| "pushPrevious cols (Suc n) (colIndex, result) =
     pushPrevious cols n (colIndex + 1, push result (js_get cols colIndex))"

text \<open>The scan \<open>while (!unbounded && !uniqueValues.has(cols[colIndex + extraColIndex]))\<close>;
  \<^const>\<open>None\<close> is the \<open>return null\<close> of its body, \<^const>\<open>Some\<close> the value of
  \<open>extraColIndex\<close> when the loop ends.\<close>

function scanAnchor :: "ColumnMetadata \<Rightarrow> string list \<Rightarrow> nat \<Rightarrow> nat \<Rightarrow> nat option" where
  "scanAnchor m cols colIndex extraColIndex =
     (if \<not> unbounded m \<and> \<not> has (uniqueValues m) (js_get cols (colIndex + extraColIndex))
      then (if extraColIndex + 1 + colIndex \<ge> length cols then None
            else scanAnchor m cols colIndex (extraColIndex + 1))
      else Some extraColIndex)"
  by pat_completeness auto
termination
  by (relation "measure (\<lambda>(m, cols, colIndex, extraColIndex).
        length cols - (colIndex + extraColIndex))") auto

declare scanAnchor.simps [simp del]

text \<open>\<open>for (i = 0; i < extraColIndex; ++i) result[result.length - 1] += sep + cols[colIndex + i]\<close>,
  with \<open>i\<close> and the number of iterations left.\<close>

fun appendExtra ::
  "string \<Rightarrow> string list \<Rightarrow> nat \<Rightarrow> nat \<Rightarrow> nat \<Rightarrow> js_array \<Rightarrow> js_array" where
  "appendExtra sep cols colIndex i 0 result = result"
| "appendExtra sep cols colIndex i (Suc n) result =
     appendExtra sep cols colIndex (i + 1) n
       (append_to_last sep result (js_get cols (colIndex + i)))"

text \<open>The invisible anchor:
  \<open>while (colIndex < cols.length) result[result.length - 1] += sep + cols[colIndex++]\<close>.\<close>

function mergeRemaining :: "string \<Rightarrow> string list \<Rightarrow> nat \<times> js_array \<Rightarrow> nat \<times> js_array" where
  "mergeRemaining sep cols (colIndex, result) =
     (if colIndex < length cols
      then mergeRemaining sep cols
             (colIndex + 1, append_to_last sep result (js_get cols colIndex))
      else (colIndex, result))"
  by pat_completeness auto
termination
  by (relation "measure (\<lambda>(sep, cols, colIndex, result). length cols - colIndex)") auto

declare mergeRemaining.simps [simp del]

text \<open>The body of \<open>for (const anchor of anchorColumns)\<close>; \<^const>\<open>None\<close> is \<open>return null\<close>.\<close>

definition anchorStep ::
  "string \<Rightarrow> string list \<Rightarrow> AnchorColumn \<Rightarrow> nat \<times> js_array \<Rightarrow> (nat \<times> js_array) option" where
  "anchorStep sep cols anchor st =
     (if fst st + previousColumns anchor > length cols then None
      else (case pushPrevious cols (previousColumns anchor) st of (colIndex, result) \<Rightarrow>
        (case metadata anchor of
           Some m \<Rightarrow>
             (case scanAnchor m cols colIndex 0 of
                None \<Rightarrow> None
              | Some extraColIndex \<Rightarrow>
                  if extraColIndex > 0 \<and> previousColumns anchor = 0 then None
                  else Some (colIndex + extraColIndex + 1,
                         array_set (appendExtra sep cols colIndex 0 extraColIndex result)
                           colIndex (js_get cols (colIndex + extraColIndex))))
         | None \<Rightarrow> Some (mergeRemaining sep cols (colIndex, result)))))"

fun anchorsLoop ::
  "string \<Rightarrow> string list \<Rightarrow> AnchorColumn list \<Rightarrow> nat \<times> js_array \<Rightarrow> (nat \<times> js_array) option" where
  "anchorsLoop sep cols [] st = Some st"
| "anchorsLoop sep cols (anchor # rest) st =
     (case anchorStep sep cols anchor st of
        None \<Rightarrow> None
      | Some st' \<Rightarrow> anchorsLoop sep cols rest st')"

definition tryParseColumns :: "string \<Rightarrow> FileMetadata \<Rightarrow> string list \<Rightarrow> js_array option" where
  "tryParseColumns sep md cols =
     (if length cols < length (columns md) then None
      else (case anchorsLoop sep cols (anchorColumns md) (0, []) of
              None \<Rightarrow> None
            | Some (colIndex, result) \<Rightarrow>
                if colIndex < length cols then None else Some result))"

subsection \<open>The parser and its pending lines: \<open>parse\<close>\<close>

text \<open>The private fields of \<open>LineParser\<close>; the field \<open>#metadata\<close> is \<open>fileMetadata\<close> here,
  and the field \<open>columns\<close> of \<open>ParseOutput\<close> is \<open>parsed\<close>, the names being taken above.\<close>

record LineParser =
  delimiter :: string
  mergeSeparator :: string
  fileMetadata :: FileMetadata
  lines :: "string list"

record ParseOutput =
  parsed :: "js_array option"
  unprocessedLines :: "string list"

definition new_LineParser :: "string \<Rightarrow> FileMetadata \<Rightarrow> string \<Rightarrow> LineParser" where
  "new_LineParser d md sep =
     \<lparr>delimiter = d, mergeSeparator = sep, fileMetadata = md, lines = []\<rparr>"

text \<open>\<open>this.#lines.slice(skipCount).flatMap((x) => x.split(this.#delimiter))\<close>.\<close>

definition mergedCols :: "LineParser \<Rightarrow> nat \<Rightarrow> string list" where
  "mergedCols p skipCount =
     concat (map (\<lambda>x. js_split x (delimiter p)) (drop skipCount (lines p)))"

text \<open>The loop \<open>for (skipCount = 0; skipCount < this.#lines.length; ++skipCount)\<close> and the
  \<open>return\<close> that follows it.\<close>

function mergeRetry :: "LineParser \<Rightarrow> nat \<Rightarrow> ParseOutput \<times> LineParser" where
  "mergeRetry p skipCount =
     (if skipCount < length (lines p)
      then (case tryParseColumns (mergeSeparator p) (fileMetadata p) (mergedCols p skipCount) of
              Some cs \<Rightarrow>
                (\<lparr>parsed = Some cs, unprocessedLines = take skipCount (lines p)\<rparr>,
                 p\<lparr>lines := []\<rparr>)
            | None \<Rightarrow> mergeRetry p (skipCount + 1))
      else (\<lparr>parsed = None, unprocessedLines = []\<rparr>, p))"
  by pat_completeness auto
termination
  by (relation "measure (\<lambda>(p, skipCount). length (lines p) - skipCount)") auto

declare mergeRetry.simps [simp del]

definition parse :: "LineParser \<Rightarrow> string \<Rightarrow> ParseOutput \<times> LineParser" where
  "parse p line =
     (case tryParseColumns (mergeSeparator p) (fileMetadata p) (js_split line (delimiter p)) of
        Some cs \<Rightarrow> (\<lparr>parsed = Some cs, unprocessedLines = lines p\<rparr>, p\<lparr>lines := []\<rparr>)
      | None \<Rightarrow>
          (let p1 = p\<lparr>lines := lines p @ [line]\<rparr>
           in if length (lines p1) > 1 then mergeRetry p1 0
              else (\<lparr>parsed = None, unprocessedLines = []\<rparr>, p1)))"

subsection \<open>Alignment with checked accesses\<close>

text \<open>
  The same walk, with every read \<open>cols[i]\<close> through an indexing that has no value past
  the end of the list, and every access \<open>result[result.length - 1]\<close> through one that
  has no value on the empty array or on a cell that holds no string: such an access is
  the result \<^const>\<open>Inl\<close>. The condition of the scan reads \<open>cols\<close> only when the column is
  bounded, as \<open>&&\<close> does. \<open>push\<close> has no index, and the assignment
  \<open>result[colIndex] = v\<close> keeps the semantics of JavaScript.
\<close>

datatype access_error = OutOfBounds nat | NoLastElement

definition get_chk :: "string list \<Rightarrow> nat \<Rightarrow> access_error + string" where
  "get_chk cols i = (if i < length cols then Inr (cols ! i) else Inl (OutOfBounds i))"

text \<open>\<open>result[result.length - 1]\<close> read as a string, and
  \<open>result[result.length - 1] += sep + v\<close> on it.\<close>

definition last_chk :: "js_array \<Rightarrow> access_error + string" where
  "last_chk r =
     (if r = [] then Inl NoLastElement
      else (case r ! (length r - 1) of
              Some (Str s) \<Rightarrow> Inr s
            | _ \<Rightarrow> Inl NoLastElement))"

definition append_to_last_chk :: "string \<Rightarrow> js_array \<Rightarrow> string \<Rightarrow> access_error + js_array" where
  "append_to_last_chk sep r v =
     (case last_chk r of
        Inl e \<Rightarrow> Inl e
      | Inr s \<Rightarrow> Inr (r[length r - 1 := Some (Str (s @ (sep @ v)))]))"




fun appendExtra_chk ::
  "string \<Rightarrow> string list \<Rightarrow> nat \<Rightarrow> nat \<Rightarrow> nat \<Rightarrow> js_array \<Rightarrow> access_error + js_array" where
  "appendExtra_chk sep cols colIndex i 0 result = Inr result"
| "appendExtra_chk sep cols colIndex i (Suc n) result =
     (case get_chk cols (colIndex + i) of
        Inl e \<Rightarrow> Inl e
      | Inr v \<Rightarrow>
          (case append_to_last_chk sep result v of
             Inl e \<Rightarrow> Inl e
           | Inr result' \<Rightarrow> appendExtra_chk sep cols colIndex (i + 1) n result'))"







section \<open>Properties of the anchor derivation\<close>

lemma loop_app:
  "getAnchorColumns_loop cs prev result = result @ getAnchorColumns_loop cs prev []"
proof (induction cs arbitrary: prev result)
  case Nil show ?case by simp
next
  case (Cons c cs)
  have a: "\<And>p x. getAnchorColumns_loop cs p (result @ [x]) = result @ x # getAnchorColumns_loop cs p []"
    using Cons.IH[of _ "result @ [_]"] by simp
  have b: "\<And>p x. getAnchorColumns_loop cs p [x] = x # getAnchorColumns_loop cs p []"
    using Cons.IH[of _ "[_]"] by simp
  show ?case
    using Cons.IH[of "prev + 1" result] by (simp add: Let_def a b)
qed

lemma loop_Cons:
  "getAnchorColumns_loop (c # cs) prev [] =
     (if \<not> unbounded c
      then \<lparr>previousColumns = prev, metadata = Some c\<rparr> # getAnchorColumns_loop cs 0 []
      else if cs = [] then [\<lparr>previousColumns = prev + 1, metadata = None\<rparr>]
      else getAnchorColumns_loop cs (prev + 1) [])"
  using loop_app[of cs 0 "[\<lparr>previousColumns = prev, metadata = Some c\<rparr>]"]
  by (simp add: Let_def)

lemma loop_all_bounded:
  "\<forall>c \<in> set cs. \<not> unbounded c \<Longrightarrow>
   getAnchorColumns_loop cs 0 [] = map (\<lambda>c. \<lparr>previousColumns = 0, metadata = Some c\<rparr>) cs"
  by (induction cs) (simp_all add: loop_Cons del: getAnchorColumns_loop.simps(2))

lemma loop_all_unbounded:
  "\<forall>c \<in> set cs. unbounded c \<Longrightarrow> cs \<noteq> [] \<Longrightarrow>
   getAnchorColumns_loop cs prev [] = [\<lparr>previousColumns = prev + length cs, metadata = None\<rparr>]"
  by (induction cs arbitrary: prev) (simp_all add: loop_Cons del: getAnchorColumns_loop.simps(2))

lemma loop_bounded:
  "a \<in> set (getAnchorColumns_loop cs prev []) \<Longrightarrow> metadata a = Some m \<Longrightarrow> \<not> unbounded m"
  by (induction cs arbitrary: prev)
     (auto simp: loop_Cons simp del: getAnchorColumns_loop.simps(2) split: if_splits)

lemma loop_butlast:
  "a \<in> set (butlast (getAnchorColumns_loop cs prev [])) \<Longrightarrow> metadata a \<noteq> None"
  by (induction cs arbitrary: prev)
     (auto simp: loop_Cons simp del: getAnchorColumns_loop.simps(2) split: if_splits)

lemma loop_sum:
  "sum_list (map previousColumns (getAnchorColumns_loop cs prev [])) +
   length (filter (\<lambda>a. metadata a \<noteq> None) (getAnchorColumns_loop cs prev []))
    = (if cs = [] then 0 else prev + length cs)"
  by (induction cs arbitrary: prev)
     (auto simp: loop_Cons simp del: getAnchorColumns_loop.simps(2) split: if_splits)

lemma anchors_bounded:
  "a \<in> set (getAnchorColumns cs) \<Longrightarrow> metadata a = Some m \<Longrightarrow> \<not> unbounded m"
  unfolding getAnchorColumns_def by (rule loop_bounded)

lemma scanAnchor_found:
  "\<not> unbounded m \<Longrightarrow> scanAnchor m cols colIndex e0 = Some e \<Longrightarrow>
   has (uniqueValues m) (js_get cols (colIndex + e)) \<and> e0 \<le> e"
proof (induction m cols colIndex e0 rule: scanAnchor.induct)
  case (1 m cols colIndex extraColIndex)
  show ?case
  proof (cases "has (uniqueValues m) (js_get cols (colIndex + extraColIndex))")
    case True
    with "1.prems" show ?thesis by (simp add: scanAnchor.simps[of m cols colIndex extraColIndex])
  next
    case False
    with "1.prems" have ne: "\<not> length cols \<le> extraColIndex + 1 + colIndex"
      and rec: "scanAnchor m cols colIndex (extraColIndex + 1) = Some e"
      by (simp_all add: scanAnchor.simps[of m cols colIndex extraColIndex] split: if_splits)
    from "1.IH"[OF _ ne "1.prems"(1) rec] False "1.prems"(1) show ?thesis by simp
  qed
qed

text \<open>
  Claim C8. The endpoint cases of the derivation: a non-empty sequence of unbounded
  columns gives the single anchor without metadata whose \<open>previousColumns\<close> is the
  number of columns; a sequence of bounded columns gives one anchor for each column,
  in order, with that column as metadata and \<open>previousColumns = 0\<close>; the empty
  sequence gives the empty list.
\<close>
theorem getAnchorColumns_endpoints:
  "(cs \<noteq> [] \<and> (\<forall>c \<in> set cs. unbounded c) \<longrightarrow>
      getAnchorColumns cs = [\<lparr>previousColumns = length cs, metadata = None\<rparr>]) \<and>
   ((\<forall>c \<in> set cs. \<not> unbounded c) \<longrightarrow>
      getAnchorColumns cs = map (\<lambda>c. \<lparr>previousColumns = 0, metadata = Some c\<rparr>) cs) \<and>
   getAnchorColumns [] = []"
  by (simp add: getAnchorColumns_def loop_all_bounded loop_all_unbounded)

theorem getAnchorColumns_endpoints_witness:
  "getAnchorColumns [\<lparr>maxLength = 0, name = [], unbounded = True, uniqueValues = []\<rparr>,
                     \<lparr>maxLength = 1, name = [], unbounded = True, uniqueValues = []\<rparr>]
     = [\<lparr>previousColumns = 2, metadata = None\<rparr>] \<and>
   getAnchorColumns [\<lparr>maxLength = 0, name = [], unbounded = False, uniqueValues = [''a'']\<rparr>,
                     \<lparr>maxLength = 0, name = [], unbounded = False, uniqueValues = [''b'']\<rparr>]
     = [\<lparr>previousColumns = 0,
         metadata = Some \<lparr>maxLength = 0, name = [], unbounded = False, uniqueValues = [''a'']\<rparr>\<rparr>,
        \<lparr>previousColumns = 0,
         metadata = Some \<lparr>maxLength = 0, name = [], unbounded = False, uniqueValues = [''b'']\<rparr>\<rparr>]"
  using getAnchorColumns_endpoints
          [of "[\<lparr>maxLength = 0, name = [], unbounded = True, uniqueValues = []\<rparr>,
                \<lparr>maxLength = 1, name = [], unbounded = True, uniqueValues = []\<rparr>]"]
        getAnchorColumns_endpoints
          [of "[\<lparr>maxLength = 0, name = [], unbounded = False, uniqueValues = [''a'']\<rparr>,
                \<lparr>maxLength = 0, name = [], unbounded = False, uniqueValues = [''b'']\<rparr>]"]
  by simp

text \<open>
  Claim C10. For every sequence of columns, in the list that \<open>getAnchorColumns\<close> returns
  every anchor with metadata has a bounded column, every anchor but the last has
  metadata, and the sum of \<open>previousColumns\<close> plus the number of anchors with metadata
  is the number of columns. So the scan of the parser never ends on such an anchor by
  the column being unbounded: where it ends with a value, the field it stops at is a
  member of \<open>uniqueValues\<close>.
\<close>
theorem getAnchorColumns_invariant:
  "(\<forall>a \<in> set (getAnchorColumns cs). \<forall>m. metadata a = Some m \<longrightarrow> \<not> unbounded m) \<and>
   (\<forall>a \<in> set (butlast (getAnchorColumns cs)). metadata a \<noteq> None) \<and>
   sum_list (map previousColumns (getAnchorColumns cs)) +
     length (filter (\<lambda>a. metadata a \<noteq> None) (getAnchorColumns cs)) = length cs \<and>
   (\<forall>a \<in> set (getAnchorColumns cs). \<forall>m cols colIndex e.
      metadata a = Some m \<and> scanAnchor m cols colIndex 0 = Some e \<longrightarrow>
        has (uniqueValues m) (js_get cols (colIndex + e)))"
proof (intro conjI ballI allI impI)
  fix a m assume "a \<in> set (getAnchorColumns cs)" "metadata a = Some m"
  then show "\<not> unbounded m" by (rule anchors_bounded)
next
  fix a assume "a \<in> set (butlast (getAnchorColumns cs))"
  then show "metadata a \<noteq> None" unfolding getAnchorColumns_def by (rule loop_butlast)
next
  show "sum_list (map previousColumns (getAnchorColumns cs)) +
     length (filter (\<lambda>a. metadata a \<noteq> None) (getAnchorColumns cs)) = length cs"
    unfolding getAnchorColumns_def using loop_sum[of cs 0] by simp
next
  fix a m cols colIndex e
  assume a: "a \<in> set (getAnchorColumns cs)"
    and b: "metadata a = Some m \<and> scanAnchor m cols colIndex 0 = Some e"
  from a b have "\<not> unbounded m" by (auto dest: anchors_bounded)
  with b show "has (uniqueValues m) (js_get cols (colIndex + e))"
    using scanAnchor_found by blast
qed

theorem getAnchorColumns_invariant_witness:
  "getAnchorColumns
     [\<lparr>maxLength = 0, name = [], unbounded = True, uniqueValues = []\<rparr>,
      \<lparr>maxLength = 0, name = [], unbounded = False, uniqueValues = [''a'']\<rparr>,
      \<lparr>maxLength = 0, name = [], unbounded = True, uniqueValues = []\<rparr>]
     = [\<lparr>previousColumns = 1,
         metadata = Some \<lparr>maxLength = 0, name = [], unbounded = False, uniqueValues = [''a'']\<rparr>\<rparr>,
        \<lparr>previousColumns = 1, metadata = None\<rparr>] \<and>
   scanAnchor \<lparr>maxLength = 0, name = [], unbounded = False, uniqueValues = [''a'']\<rparr>
     [''x'', ''n'', ''a''] 1 0 = Some 1 \<and>
   has [''a''] (js_get [''x'', ''n'', ''a''] (1 + 1))"
proof -
  let ?B = "\<lparr>maxLength = 0, name = [], unbounded = False, uniqueValues = [''a'']\<rparr>"
  let ?cs = "[\<lparr>maxLength = 0, name = [], unbounded = True, uniqueValues = []\<rparr>, ?B,
              \<lparr>maxLength = 0, name = [], unbounded = True, uniqueValues = []\<rparr>]"
  let ?a = "\<lparr>previousColumns = 1, metadata = Some ?B\<rparr>"
  have eq: "getAnchorColumns ?cs = [?a, \<lparr>previousColumns = 1, metadata = None\<rparr>]"
    by (simp add: getAnchorColumns_def)
  have sc: "scanAnchor ?B [''x'', ''n'', ''a''] 1 0 = Some 1"
    by code_simp
  have mem: "?a \<in> set (getAnchorColumns ?cs)"
    unfolding eq by simp
  have md: "metadata ?a = Some ?B" by simp
  from getAnchorColumns_invariant[of ?cs]
  have "\<forall>a \<in> set (getAnchorColumns ?cs). \<forall>m cols colIndex e.
      metadata a = Some m \<and> scanAnchor m cols colIndex 0 = Some e \<longrightarrow>
        has (uniqueValues m) (js_get cols (colIndex + e))"
    by blast
  from this[rule_format, OF mem conjI[OF md sc]]
  have "has [''a''] (js_get [''x'', ''n'', ''a''] (1 + 1))" by simp
  with eq sc show ?thesis by simp
qed

section \<open>Properties of the column metadata\<close>





lemma add_kept:
  "\<not> unbounded (add c v m) \<Longrightarrow> uniqueValues (add c v m) = set_add v (uniqueValues c)"
  by (simp add: add_def Let_def split: if_splits)







section \<open>Serialization of the column metadata\<close>

lemma fold_set_add_distinct:
  "distinct (acc @ xs) \<Longrightarrow> fold set_add xs acc = acc @ xs"
  by (induction xs arbitrary: acc) (auto simp: set_add_def set_has_def)

lemma fold_set_add_set: "set (fold set_add xs acc) = set acc \<union> set xs"
  by (induction xs arbitrary: acc) (auto simp: set_add_def set_has_def)

lemma fold_set_add_keeps_distinct: "distinct acc \<Longrightarrow> distinct (fold set_add xs acc)"
  by (induction xs arbitrary: acc) (auto simp: set_add_def set_has_def)

lemma new_Set_distinct_id: "distinct xs \<Longrightarrow> new_Set xs = xs"
  using fold_set_add_distinct[of "[]" xs] by (simp add: new_Set_def)

lemma set_new_Set: "set (new_Set xs) = set xs"
  by (simp add: new_Set_def fold_set_add_set)

lemma distinct_new_Set: "distinct (new_Set xs)"
  by (simp add: new_Set_def fold_set_add_keeps_distinct)

lemma the_str_JStr: "map (the_str \<circ> JStr) xs = xs"
  by (induction xs) simp_all

lemma all_strings_JStr: "\<not> list_ex (\<lambda>x. \<not> is_string (Some x)) (map JStr xs)"
  by (induction xs) simp_all

lemma fromJson_toJSON:
  "fromJson (toJSON x) =
     Inr \<lparr>maxLength = maxLength x, name = name x, unbounded = unbounded x,
          uniqueValues = new_Set (uniqueValues x)\<rparr>"
  by (simp add: fromJson_def toJSON_def new_ColumnMetadata_def the_str_JStr all_strings_JStr)

lemma distinct_add: "distinct (uniqueValues c) \<Longrightarrow> distinct (uniqueValues (add c v m))"
  by (auto simp: add_def Let_def set_add_def set_has_def)

lemma distinct_adds: "distinct (uniqueValues c) \<Longrightarrow> distinct (uniqueValues (adds c ops))"
  by (induction c ops rule: adds.induct) (simp_all add: distinct_add)

lemma roundtrip_distinct:
  "distinct (uniqueValues x) \<Longrightarrow> fromJson (toJSON x) = Inr (x :: ColumnMetadata)"
  by (simp add: fromJson_toJSON new_Set_distinct_id)

text \<open>
  Claim C5. Deserializing the serialization of a column succeeds, with the same
  \<open>maxLength\<close>, \<open>name\<close> and \<open>unbounded\<close>, the same set of \<open>uniqueValues\<close>, and a
  \<open>cardinality\<close> that is \<open>null\<close> when unbounded and the size of that set otherwise.
  When \<open>uniqueValues\<close> holds no value twice, as every \<open>Set\<close> does, the result is the
  column itself; so it is for every column made by the constructor and calls of \<open>add\<close>.
\<close>

theorem fromJson_toJSON_roundtrip:
  "(\<exists>y. fromJson (toJSON x) = Inr y \<and> maxLength y = maxLength x \<and> name y = name x \<and>
        unbounded y = unbounded x \<and> set (uniqueValues y) = set (uniqueValues x) \<and>
        cardinality y =
          (if unbounded x then None else Some (int (card (set (uniqueValues x)))))) \<and>
   (distinct (uniqueValues x) \<longrightarrow> fromJson (toJSON x) = Inr (x :: ColumnMetadata)) \<and>
   fromJson (toJSON (adds (new_ColumnMetadata n) ops)) = Inr (adds (new_ColumnMetadata n) ops)"
proof (intro conjI impI)
  have "int (length (new_Set (uniqueValues x))) = int (card (set (uniqueValues x)))"
    using distinct_card[OF distinct_new_Set[of "uniqueValues x"]] by (simp add: set_new_Set)
  then show "\<exists>y. fromJson (toJSON x) = Inr y \<and> maxLength y = maxLength x \<and> name y = name x \<and>
        unbounded y = unbounded x \<and> set (uniqueValues y) = set (uniqueValues x) \<and>
        cardinality y =
          (if unbounded x then None else Some (int (card (set (uniqueValues x)))))"
    by (simp add: fromJson_toJSON set_new_Set cardinality_def)
next
  assume "distinct (uniqueValues x)"
  then show "fromJson (toJSON x) = Inr x" by (rule roundtrip_distinct)
next
  have "distinct (uniqueValues (adds (new_ColumnMetadata n) ops))"
    by (rule distinct_adds) (simp add: new_ColumnMetadata_def)
  then show "fromJson (toJSON (adds (new_ColumnMetadata n) ops)) = Inr (adds (new_ColumnMetadata n) ops)"
    by (rule roundtrip_distinct)
qed

theorem fromJson_toJSON_roundtrip_witness:
  "distinct (uniqueValues \<lparr>maxLength = 6, name = ''col'', unbounded = False,
                            uniqueValues = [''value1'', ''value2'']\<rparr>) \<and>
   fromJson (toJSON \<lparr>maxLength = 6, name = ''col'', unbounded = False,
                     uniqueValues = [''value1'', ''value2'']\<rparr>)
     = Inr \<lparr>maxLength = 6, name = ''col'', unbounded = False,
            uniqueValues = [''value1'', ''value2'']\<rparr>"
  using fromJson_toJSON_roundtrip
          [of "\<lparr>maxLength = 6, name = ''col'', unbounded = False,
                 uniqueValues = [''value1'', ''value2'']\<rparr>"]
  by simp

text \<open>
  Claim C6. Deserialization fails exactly when one of the four authoritative fields is
  missing or has the wrong type, and the error then names the first such field in the
  order maxLength, name, unbounded, uniqueValues; otherwise it succeeds. The result
  depends on these four fields only: a \<open>cardinality\<close> field, whatever its value, does
  not change it.
\<close>

theorem fromJson_first_offending_field:
  "(case spec_first_offending obj of
      Some f \<Rightarrow> fromJson obj = Inl (Error (''Missing or invalid type for field: '' @ f @ ''.''))
    | None \<Rightarrow> (\<exists>c. fromJson obj = Inr c)) \<and>
   ((\<forall>f \<in> fst ` set spec_authoritative_fields. map_of obj' f = map_of obj f) \<longrightarrow>
      fromJson obj' = fromJson obj) \<and>
   fromJson ((''cardinality'', v) # obj) = fromJson obj"
  by (simp add: spec_first_offending_def spec_authoritative_fields_def fromJson_def
        missingOrInvalidField_def)

theorem fromJson_first_offending_field_witness:
  "spec_first_offending
     [(''maxLength'', JNum 6), (''name'', JStr ''col''), (''unbounded'', JBool False)]
     = Some ''uniqueValues'' \<and>
   fromJson [(''maxLength'', JNum 6), (''name'', JStr ''col''), (''unbounded'', JBool False)]
     = Inl (Error ''Missing or invalid type for field: uniqueValues.'') \<and>
   spec_first_offending
     [(''maxLength'', JNum 6), (''name'', JArr [JNum 1, JNum 2, JNum 3]),
      (''uniqueValues'', JArr [JStr ''a'', JNum 1])]
     = Some ''name'' \<and>
   fromJson [(''maxLength'', JNum 6), (''name'', JArr [JNum 1, JNum 2, JNum 3]),
      (''uniqueValues'', JArr [JStr ''a'', JNum 1])]
     = Inl (Error ''Missing or invalid type for field: name.'') \<and>
   fromJson [(''cardinality'', JStr ''x''), (''maxLength'', JNum 6), (''name'', JStr ''col''),
             (''unbounded'', JBool False), (''uniqueValues'', JArr [JStr ''a''])]
     = fromJson [(''maxLength'', JNum 6), (''name'', JStr ''col''),
             (''unbounded'', JBool False), (''uniqueValues'', JArr [JStr ''a''])]"
proof -
  let ?o1 = "[(''maxLength'', JNum 6), (''name'', JStr ''col''), (''unbounded'', JBool False)]"
  let ?o2 = "[(''maxLength'', JNum 6), (''name'', JArr [JNum 1, JNum 2, JNum 3]),
      (''uniqueValues'', JArr [JStr ''a'', JNum 1])]"
  let ?o3 = "[(''maxLength'', JNum 6), (''name'', JStr ''col''),
             (''unbounded'', JBool False), (''uniqueValues'', JArr [JStr ''a''])]"
  have a: "spec_first_offending ?o1 = Some ''uniqueValues''"
    by (simp add: spec_first_offending_def spec_authoritative_fields_def)
  have b: "spec_first_offending ?o2 = Some ''name''"
    by (simp add: spec_first_offending_def spec_authoritative_fields_def)
  have c: "\<forall>f \<in> fst ` set spec_authoritative_fields.
             map_of ((''cardinality'', JStr ''x'') # ?o3) f = map_of ?o3 f"
    by (simp add: spec_authoritative_fields_def)
  from fromJson_first_offending_field[of ?o1 ?o1] a
  have r1: "fromJson ?o1 = Inl (Error ''Missing or invalid type for field: uniqueValues.'')"
    by simp
  from fromJson_first_offending_field[of ?o2 ?o2] b
  have r2: "fromJson ?o2 = Inl (Error ''Missing or invalid type for field: name.'')"
    by simp
  from fromJson_first_offending_field[of ?o3 "(''cardinality'', JStr ''x'') # ?o3"] c
  have r3: "fromJson ((''cardinality'', JStr ''x'') # ?o3) = fromJson ?o3"
    by blast
  from a b r1 r2 r3 show ?thesis by simp
qed

section \<open>Properties of the line parser\<close>

lemma mergeRetry_clears:
  "parsed (fst (mergeRetry p k)) \<noteq> None \<Longrightarrow> lines (snd (mergeRetry p k)) = []"
proof (induction p k rule: mergeRetry.induct)
  case (1 p skipCount)
  show ?case
  proof (cases "skipCount < length (lines p)")
    case False
    with "1.prems" show ?thesis by (simp add: mergeRetry.simps[of p skipCount])
  next
    case True
    show ?thesis
    proof (cases "tryParseColumns (mergeSeparator p) (fileMetadata p) (mergedCols p skipCount)")
      case None
      with True "1.prems" "1.IH"[OF True None] show ?thesis
        by (simp add: mergeRetry.simps[of p skipCount])
    next
      case (Some cs)
      with True show ?thesis by (simp add: mergeRetry.simps[of p skipCount])
    qed
  qed
qed

lemma mergeRetry_first:
  "k0 \<le> k \<Longrightarrow> k < length (lines p) \<Longrightarrow>
   tryParseColumns (mergeSeparator p) (fileMetadata p) (mergedCols p k) = Some cs \<Longrightarrow>
   (\<forall>j. k0 \<le> j \<and> j < k \<longrightarrow>
      tryParseColumns (mergeSeparator p) (fileMetadata p) (mergedCols p j) = None) \<Longrightarrow>
   mergeRetry p k0 =
     (\<lparr>parsed = Some cs, unprocessedLines = take k (lines p)\<rparr>, p\<lparr>lines := []\<rparr>)"
proof (induction p k0 rule: mergeRetry.induct)
  case (1 p skipCount)
  have lt: "skipCount < length (lines p)" using "1.prems" by simp
  show ?case
  proof (cases "skipCount = k")
    case True
    with "1.prems" lt show ?thesis by (simp add: mergeRetry.simps[of p k])
  next
    case False
    with "1.prems" have none:
      "tryParseColumns (mergeSeparator p) (fileMetadata p) (mergedCols p skipCount) = None"
      by simp
    from False "1.prems" have "skipCount + 1 \<le> k" by simp
    from "1.IH"[OF lt none this "1.prems"(2,3)] "1.prems"(4)
    have "mergeRetry p (skipCount + 1) =
      (\<lparr>parsed = Some cs, unprocessedLines = take k (lines p)\<rparr>, p\<lparr>lines := []\<rparr>)"
      by simp
    with lt none show ?thesis by (simp add: mergeRetry.simps[of p skipCount])
  qed
qed

lemma mergeRetry_none:
  "(\<forall>j. k0 \<le> j \<and> j < length (lines p) \<longrightarrow>
      tryParseColumns (mergeSeparator p) (fileMetadata p) (mergedCols p j) = None) \<Longrightarrow>
   mergeRetry p k0 = (\<lparr>parsed = None, unprocessedLines = []\<rparr>, p)"
proof (induction p k0 rule: mergeRetry.induct)
  case (1 p skipCount)
  show ?case
  proof (cases "skipCount < length (lines p)")
    case False
    then show ?thesis by (simp add: mergeRetry.simps[of p skipCount])
  next
    case True
    with "1.prems" have none:
      "tryParseColumns (mergeSeparator p) (fileMetadata p) (mergedCols p skipCount) = None"
      by simp
    from "1.IH"[OF True none] "1.prems"
    have "mergeRetry p (skipCount + 1) = (\<lparr>parsed = None, unprocessedLines = []\<rparr>, p)"
      by simp
    with True none show ?thesis by (simp add: mergeRetry.simps[of p skipCount])
  qed
qed

text \<open>
  Claim C4. After a call of \<open>parse\<close> that returns columns, the pending lines are empty.
  When the line aligns by itself, the parser changes in nothing but that, and the lines
  that were pending are returned as \<open>unprocessedLines\<close>, as they were.
\<close>

theorem parse_success_clears_pending:
  "(parsed (fst (parse p line)) \<noteq> None \<longrightarrow> lines (snd (parse p line)) = []) \<and>
   (\<forall>cs. tryParseColumns (mergeSeparator p) (fileMetadata p) (js_split line (delimiter p))
           = Some cs \<longrightarrow>
      parse p line = (\<lparr>parsed = Some cs, unprocessedLines = lines p\<rparr>, p\<lparr>lines := []\<rparr>))"
proof (intro conjI impI allI)
  assume nn: "parsed (fst (parse p line)) \<noteq> None"
  show "lines (snd (parse p line)) = []"
  proof (cases "tryParseColumns (mergeSeparator p) (fileMetadata p)
                  (js_split line (delimiter p))")
    case (Some cs)
    then show ?thesis by (simp add: parse_def)
  next
    case None
    show ?thesis
    proof (cases "lines p = []")
      case True
      with None nn show ?thesis by (simp add: parse_def)
    next
      case False
      with None nn show ?thesis
        using mergeRetry_clears[of "p\<lparr>lines := lines p @ [line]\<rparr>" 0]
        by (simp add: parse_def)
    qed
  qed
next
  fix cs
  assume "tryParseColumns (mergeSeparator p) (fileMetadata p) (js_split line (delimiter p))
           = Some cs"
  then show "parse p line = (\<lparr>parsed = Some cs, unprocessedLines = lines p\<rparr>, p\<lparr>lines := []\<rparr>)"
    by (simp add: parse_def)
qed

theorem parse_success_clears_pending_witness:
  "tryParseColumns '' ''
     \<lparr>columns = [\<lparr>maxLength = 0, name = [], unbounded = True, uniqueValues = []\<rparr>,
                 \<lparr>maxLength = 0, name = [], unbounded = False, uniqueValues = [''c'']\<rparr>]\<rparr>
     (js_split ''x|c'' ''|'') = Some [Some (Str ''x''), Some (Str ''c'')] \<and>
   parse \<lparr>delimiter = ''|'', mergeSeparator = '' '',
          fileMetadata =
            \<lparr>columns = [\<lparr>maxLength = 0, name = [], unbounded = True, uniqueValues = []\<rparr>,
                        \<lparr>maxLength = 0, name = [], unbounded = False, uniqueValues = [''c'']\<rparr>]\<rparr>,
          lines = [''a'', ''b'']\<rparr> ''x|c''
     = (\<lparr>parsed = Some [Some (Str ''x''), Some (Str ''c'')], unprocessedLines = [''a'', ''b'']\<rparr>,
        \<lparr>delimiter = ''|'', mergeSeparator = '' '',
          fileMetadata =
            \<lparr>columns = [\<lparr>maxLength = 0, name = [], unbounded = True, uniqueValues = []\<rparr>,
                        \<lparr>maxLength = 0, name = [], unbounded = False, uniqueValues = [''c'']\<rparr>]\<rparr>,
          lines = []\<rparr>) \<and>
   lines (snd (parse \<lparr>delimiter = ''|'', mergeSeparator = '' '',
          fileMetadata =
            \<lparr>columns = [\<lparr>maxLength = 0, name = [], unbounded = True, uniqueValues = []\<rparr>,
                        \<lparr>maxLength = 0, name = [], unbounded = False, uniqueValues = [''c'']\<rparr>]\<rparr>,
          lines = [''a'', ''b'']\<rparr> ''x|c'')) = []"
proof -
  let ?md = "\<lparr>columns = [\<lparr>maxLength = 0, name = [], unbounded = True, uniqueValues = []\<rparr>,
                 \<lparr>maxLength = 0, name = [], unbounded = False, uniqueValues = [''c'']\<rparr>]\<rparr>"
  let ?p = "\<lparr>delimiter = ''|'', mergeSeparator = '' '', fileMetadata = ?md,
             lines = [''a'', ''b'']\<rparr>"
  have t: "tryParseColumns '' '' ?md (js_split ''x|c'' ''|'')
             = Some [Some (Str ''x''), Some (Str ''c'')]"
    by code_simp
  then have t': "tryParseColumns (mergeSeparator ?p) (fileMetadata ?p)
                   (js_split ''x|c'' (delimiter ?p)) = Some [Some (Str ''x''), Some (Str ''c'')]"
    by simp
  from parse_success_clears_pending[of ?p "''x|c''"] t'
  have r: "parse ?p ''x|c'' =
      (\<lparr>parsed = Some [Some (Str ''x''), Some (Str ''c'')], unprocessedLines = lines ?p\<rparr>,
       ?p\<lparr>lines := []\<rparr>)"
    by blast
  then have nn: "parsed (fst (parse ?p ''x|c'')) \<noteq> None" by simp
  from parse_success_clears_pending[of ?p "''x|c''"] nn
  have "lines (snd (parse ?p ''x|c'')) = []" by blast
  with t r show ?thesis by simp
qed

text \<open>
  Claim C2. When the line does not align by itself and a line was pending already, the
  skip counts are tried from 0 upwards on the concatenated fields of the pending lines
  from that index on, the new line being the last of them. The first skip count \<open>k\<close>
  that aligns gives the result: its columns, the first \<open>k\<close> pending lines as
  \<open>unprocessedLines\<close>, and no pending line left. When no skip count aligns, the result
  has no columns and no unprocessed lines, and every line stays pending.
\<close>

theorem parse_retry_smallest_skip:
  assumes "tryParseColumns (mergeSeparator p) (fileMetadata p) (js_split line (delimiter p))
             = None"
    and "lines p \<noteq> []"
  shows
   "(\<forall>k cs. k < length (lines p @ [line]) \<and>
       tryParseColumns (mergeSeparator p) (fileMetadata p)
         (concat (map (\<lambda>x. js_split x (delimiter p)) (drop k (lines p @ [line])))) = Some cs \<and>
       (\<forall>j < k. tryParseColumns (mergeSeparator p) (fileMetadata p)
         (concat (map (\<lambda>x. js_split x (delimiter p)) (drop j (lines p @ [line])))) = None)
       \<longrightarrow> parse p line =
             (\<lparr>parsed = Some cs, unprocessedLines = take k (lines p @ [line])\<rparr>,
              p\<lparr>lines := []\<rparr>)) \<and>
    ((\<forall>k < length (lines p @ [line]).
        tryParseColumns (mergeSeparator p) (fileMetadata p)
          (concat (map (\<lambda>x. js_split x (delimiter p)) (drop k (lines p @ [line])))) = None)
       \<longrightarrow> parse p line =
             (\<lparr>parsed = None, unprocessedLines = []\<rparr>, p\<lparr>lines := lines p @ [line]\<rparr>))"
proof -
  let ?p1 = "p\<lparr>lines := lines p @ [line]\<rparr>"
  have mc: "\<And>k. mergedCols ?p1 k =
      concat (map (\<lambda>x. js_split x (delimiter p)) (drop k (lines p @ [line])))"
    by (simp add: mergedCols_def)
  have par: "parse p line = mergeRetry ?p1 0"
    using assms by (simp add: parse_def)
  show ?thesis
  proof (intro conjI allI impI)
    fix k cs
    assume h: "k < length (lines p @ [line]) \<and>
       tryParseColumns (mergeSeparator p) (fileMetadata p)
         (concat (map (\<lambda>x. js_split x (delimiter p)) (drop k (lines p @ [line])))) = Some cs \<and>
       (\<forall>j < k. tryParseColumns (mergeSeparator p) (fileMetadata p)
         (concat (map (\<lambda>x. js_split x (delimiter p)) (drop j (lines p @ [line])))) = None)"
    have "mergeRetry ?p1 0 =
        (\<lparr>parsed = Some cs, unprocessedLines = take k (lines ?p1)\<rparr>, ?p1\<lparr>lines := []\<rparr>)"
      by (rule mergeRetry_first) (use h in \<open>simp_all add: mc del: drop_append\<close>)
    with par show "parse p line =
             (\<lparr>parsed = Some cs, unprocessedLines = take k (lines p @ [line])\<rparr>,
              p\<lparr>lines := []\<rparr>)"
      by simp
  next
    assume h: "\<forall>k < length (lines p @ [line]).
        tryParseColumns (mergeSeparator p) (fileMetadata p)
          (concat (map (\<lambda>x. js_split x (delimiter p)) (drop k (lines p @ [line])))) = None"
    have "mergeRetry ?p1 0 = (\<lparr>parsed = None, unprocessedLines = []\<rparr>, ?p1)"
      by (rule mergeRetry_none) (use h in \<open>simp add: mc del: drop_append\<close>)
    with par show "parse p line =
             (\<lparr>parsed = None, unprocessedLines = []\<rparr>, p\<lparr>lines := lines p @ [line]\<rparr>)"
      by simp
  qed
qed

theorem parse_retry_smallest_skip_witness:
  "parse \<lparr>delimiter = ''|'', mergeSeparator = '' '',
          fileMetadata =
            \<lparr>columns = [\<lparr>maxLength = 0, name = [], unbounded = False, uniqueValues = [''c1'']\<rparr>,
                        \<lparr>maxLength = 0, name = [], unbounded = False, uniqueValues = [''c2'']\<rparr>,
                        \<lparr>maxLength = 0, name = [], unbounded = True, uniqueValues = []\<rparr>]\<rparr>,
          lines = [''v1|v2'', ''c1|v3'', ''c1|c2'']\<rparr> ''v4|v5''
     = (\<lparr>parsed = Some [Some (Str ''c1''), Some (Str ''c2''), Some (Str ''v4 v5'')],
         unprocessedLines = [''v1|v2'', ''c1|v3'']\<rparr>,
        \<lparr>delimiter = ''|'', mergeSeparator = '' '',
          fileMetadata =
            \<lparr>columns = [\<lparr>maxLength = 0, name = [], unbounded = False, uniqueValues = [''c1'']\<rparr>,
                        \<lparr>maxLength = 0, name = [], unbounded = False, uniqueValues = [''c2'']\<rparr>,
                        \<lparr>maxLength = 0, name = [], unbounded = True, uniqueValues = []\<rparr>]\<rparr>,
          lines = []\<rparr>) \<and>
   parse \<lparr>delimiter = ''|'', mergeSeparator = '' '',
          fileMetadata =
            \<lparr>columns = [\<lparr>maxLength = 0, name = [], unbounded = False, uniqueValues = [''c1'']\<rparr>,
                        \<lparr>maxLength = 0, name = [], unbounded = False, uniqueValues = [''c2'']\<rparr>,
                        \<lparr>maxLength = 0, name = [], unbounded = True, uniqueValues = []\<rparr>]\<rparr>,
          lines = [''v1|v2'']\<rparr> ''c1|v3''
     = (\<lparr>parsed = None, unprocessedLines = []\<rparr>,
        \<lparr>delimiter = ''|'', mergeSeparator = '' '',
          fileMetadata =
            \<lparr>columns = [\<lparr>maxLength = 0, name = [], unbounded = False, uniqueValues = [''c1'']\<rparr>,
                        \<lparr>maxLength = 0, name = [], unbounded = False, uniqueValues = [''c2'']\<rparr>,
                        \<lparr>maxLength = 0, name = [], unbounded = True, uniqueValues = []\<rparr>]\<rparr>,
          lines = [''v1|v2'', ''c1|v3'']\<rparr>)"
proof -
  let ?md = "\<lparr>columns = [\<lparr>maxLength = 0, name = [], unbounded = False, uniqueValues = [''c1'']\<rparr>,
                        \<lparr>maxLength = 0, name = [], unbounded = False, uniqueValues = [''c2'']\<rparr>,
                        \<lparr>maxLength = 0, name = [], unbounded = True, uniqueValues = []\<rparr>]\<rparr>"
  let ?p = "\<lparr>delimiter = ''|'', mergeSeparator = '' '', fileMetadata = ?md,
             lines = [''v1|v2'', ''c1|v3'', ''c1|c2'']\<rparr>"
  let ?q = "\<lparr>delimiter = ''|'', mergeSeparator = '' '', fileMetadata = ?md,
             lines = [''v1|v2'']\<rparr>"
  let ?att = "\<lambda>ls k. tryParseColumns '' '' ?md
                 (concat (map (\<lambda>x. js_split x ''|'') (drop k ls)))"
  let ?P = "[''v1|v2'', ''c1|v3'', ''c1|c2'', ''v4|v5'']"
  let ?Q = "[''v1|v2'', ''c1|v3'']"
  have alone_p: "tryParseColumns (mergeSeparator ?p) (fileMetadata ?p)
                   (js_split ''v4|v5'' (delimiter ?p)) = None"
    by code_simp
  have alone_q: "tryParseColumns (mergeSeparator ?q) (fileMetadata ?q)
                   (js_split ''c1|v3'' (delimiter ?q)) = None"
    by code_simp
  have p0: "?att ?P 0 = None" by code_simp
  have p1: "?att ?P 1 = None" by code_simp
  have p2: "?att ?P 2 = Some [Some (Str ''c1''), Some (Str ''c2''), Some (Str ''v4 v5'')]"
    by code_simp
  have q0: "?att ?Q 0 = None" by code_simp
  have q1: "?att ?Q 1 = None" by code_simp
  have before: "\<forall>j<2. ?att ?P j = None"
  proof (intro allI impI)
    fix j :: nat assume "j < 2"
    then have "j = 0 \<or> j = 1" by auto
    with p0 p1 show "?att ?P j = None" by auto
  qed
  have never: "\<forall>k < length (lines ?q @ [''c1|v3'']). ?att ?Q k = None"
  proof (intro allI impI)
    fix k :: nat assume "k < length (lines ?q @ [''c1|v3''])"
    then have "k = 0 \<or> k = 1" by auto
    with q0 q1 show "?att ?Q k = None" by auto
  qed
  have r1: "parse ?p ''v4|v5'' =
      (\<lparr>parsed = Some [Some (Str ''c1''), Some (Str ''c2''), Some (Str ''v4 v5'')],
        unprocessedLines = take 2 (lines ?p @ [''v4|v5''])\<rparr>, ?p\<lparr>lines := []\<rparr>)"
    using parse_retry_smallest_skip[OF alone_p, THEN conjunct1, rule_format, of 2
        "[Some (Str ''c1''), Some (Str ''c2''), Some (Str ''v4 v5'')]"] p2 before
    by simp
  have r2: "parse ?q ''c1|v3'' =
      (\<lparr>parsed = None, unprocessedLines = []\<rparr>, ?q\<lparr>lines := lines ?q @ [''c1|v3'']\<rparr>)"
    using parse_retry_smallest_skip[OF alone_q, THEN conjunct2] never
    by simp
  from r1 r2 show ?thesis by simp
qed

lemma anchorsLoop_append:
  "anchorsLoop sep cols (xs @ ys) st =
     (case anchorsLoop sep cols xs st of
        None \<Rightarrow> None
      | Some st' \<Rightarrow> anchorsLoop sep cols ys st')"
  by (induction xs arbitrary: st) (simp_all split: option.splits)

lemma anchorStep_noise_without_previous:
  assumes "metadata a = Some m" and "\<not> unbounded m" and "previousColumns a = 0"
    and "\<not> has (uniqueValues m) (js_get cols colIndex)"
  shows "anchorStep sep cols a (colIndex, result) = None"
proof (cases "scanAnchor m cols colIndex 0")
  case None
  with assms show ?thesis by (simp add: anchorStep_def)
next
  case (Some e)
  from scanAnchor_found[OF assms(2) Some] assms(4) have "e > 0"
    by (cases e) simp_all
  with Some assms show ?thesis by (simp add: anchorStep_def)
qed

text \<open>
  Claim C9. At an anchor with a bounded column and \<open>previousColumns = 0\<close>, when the field
  at the cursor is no member of the column's \<open>uniqueValues\<close>, so that the scan skips at
  least one field, the step of the anchor returns \<open>null\<close>, and so does the walk over
  every anchor list that reaches this anchor, and the alignment as a whole.
\<close>

theorem noise_without_previous_columns_fails:
  assumes "metadata a = Some m" and "\<not> unbounded m" and "previousColumns a = 0"
    and "\<not> has (uniqueValues m) (js_get cols colIndex)"
  shows "anchorStep sep cols a (colIndex, result) = None \<and>
         (anchorsLoop sep cols pre (0, []) = Some (colIndex, result) \<longrightarrow>
            anchorsLoop sep cols (pre @ a # post) (0, []) = None \<and>
            (anchorColumns md = pre @ a # post \<longrightarrow> tryParseColumns sep md cols = None))"
  using anchorStep_noise_without_previous[OF assms, of sep result]
  by (simp add: anchorsLoop_append tryParseColumns_def)

theorem noise_without_previous_columns_fails_witness:
  "anchorColumns
     \<lparr>columns = [\<lparr>maxLength = 0, name = [], unbounded = True, uniqueValues = []\<rparr>,
                 \<lparr>maxLength = 0, name = [], unbounded = False, uniqueValues = [''a'']\<rparr>,
                 \<lparr>maxLength = 0, name = [], unbounded = False, uniqueValues = [''b'']\<rparr>]\<rparr>
     = [\<lparr>previousColumns = 1, metadata = Some \<lparr>maxLength = 0, name = [], unbounded = False, uniqueValues = [''a'']\<rparr>\<rparr>] @
       \<lparr>previousColumns = 0, metadata = Some \<lparr>maxLength = 0, name = [], unbounded = False, uniqueValues = [''b'']\<rparr>\<rparr> # [] \<and>
   anchorsLoop '' '' [''x'', ''a'', ''n'', ''b'']
     [\<lparr>previousColumns = 1, metadata = Some \<lparr>maxLength = 0, name = [], unbounded = False, uniqueValues = [''a'']\<rparr>\<rparr>]
     (0, []) = Some (2, [Some (Str ''x''), Some (Str ''a'')]) \<and>
   \<not> has [''b''] (js_get [''x'', ''a'', ''n'', ''b''] 2) \<and>
   anchorStep '' '' [''x'', ''a'', ''n'', ''b'']
     \<lparr>previousColumns = 0, metadata = Some \<lparr>maxLength = 0, name = [], unbounded = False, uniqueValues = [''b'']\<rparr>\<rparr>
     (2, [Some (Str ''x''), Some (Str ''a'')]) = None \<and>
   tryParseColumns '' ''
     \<lparr>columns = [\<lparr>maxLength = 0, name = [], unbounded = True, uniqueValues = []\<rparr>,
                 \<lparr>maxLength = 0, name = [], unbounded = False, uniqueValues = [''a'']\<rparr>,
                 \<lparr>maxLength = 0, name = [], unbounded = False, uniqueValues = [''b'']\<rparr>]\<rparr>
     [''x'', ''a'', ''n'', ''b''] = None"
proof -
  let ?A = "\<lparr>maxLength = 0, name = [], unbounded = False, uniqueValues = [''a'']\<rparr>"
  let ?B = "\<lparr>maxLength = 0, name = [], unbounded = False, uniqueValues = [''b'']\<rparr>"
  let ?md = "\<lparr>columns = [\<lparr>maxLength = 0, name = [], unbounded = True, uniqueValues = []\<rparr>, ?A, ?B]\<rparr>"
  let ?a1 = "\<lparr>previousColumns = 1, metadata = Some ?A\<rparr>"
  let ?a2 = "\<lparr>previousColumns = 0, metadata = Some ?B\<rparr>"
  let ?cols = "[''x'', ''a'', ''n'', ''b'']"
  have ac: "anchorColumns ?md = [?a1] @ ?a2 # []"
    by (simp add: anchorColumns_def getAnchorColumns_def)
  have pre: "anchorsLoop '' '' ?cols [?a1] (0, []) = Some (2, [Some (Str ''x''), Some (Str ''a'')])"
    by code_simp
  have nh: "\<not> has (uniqueValues ?B) (js_get ?cols 2)"
    by code_simp
  have h1: "metadata ?a2 = Some ?B" and h2: "\<not> unbounded ?B" and h3: "previousColumns ?a2 = 0"
    by simp_all
  note fails = noise_without_previous_columns_fails[OF h1 h2 h3 nh,
      of "'' ''" "[Some (Str ''x''), Some (Str ''a'')]" "[?a1]" "[]" ?md]
  from fails have s: "anchorStep '' '' ?cols ?a2 (2, [Some (Str ''x''), Some (Str ''a'')]) = None"
    by blast
  from fails pre ac have t: "tryParseColumns '' '' ?md ?cols = None"
    by blast
  from ac pre nh s t show ?thesis by simp
qed

text \<open>
  Claim C1, at a failing input. Four columns are declared: unbounded, bounded by \<open>a\<close>,
  unbounded, bounded by \<open>b\<close>. On the line \<open>x|n|a|y|b\<close> the first bounded anchor absorbs
  the noise field \<open>n\<close>; the value of the second bounded anchor is then stored at the
  index of the cursor into the raw fields, past the end of the output. The alignment
  succeeds with an array of five cells, one of them a hole.
\<close>

theorem tryParseColumns_hole_after_noise:
  "length (columns
     \<lparr>columns = [\<lparr>maxLength = 0, name = [], unbounded = True, uniqueValues = []\<rparr>,
                 \<lparr>maxLength = 0, name = [], unbounded = False, uniqueValues = [''a'']\<rparr>,
                 \<lparr>maxLength = 0, name = [], unbounded = True, uniqueValues = []\<rparr>,
                 \<lparr>maxLength = 0, name = [], unbounded = False, uniqueValues = [''b'']\<rparr>]\<rparr>) = 4 \<and>
   js_split ''x|n|a|y|b'' ''|'' = [''x'', ''n'', ''a'', ''y'', ''b''] \<and>
   tryParseColumns '' ''
     \<lparr>columns = [\<lparr>maxLength = 0, name = [], unbounded = True, uniqueValues = []\<rparr>,
                 \<lparr>maxLength = 0, name = [], unbounded = False, uniqueValues = [''a'']\<rparr>,
                 \<lparr>maxLength = 0, name = [], unbounded = True, uniqueValues = []\<rparr>,
                 \<lparr>maxLength = 0, name = [], unbounded = False, uniqueValues = [''b'']\<rparr>]\<rparr>
     [''x'', ''n'', ''a'', ''y'', ''b'']
     = Some [Some (Str ''x n''), Some (Str ''a''), Some (Str ''y''), None, Some (Str ''b'')] \<and>
   parsed (fst (parse
     (new_LineParser ''|''
        \<lparr>columns = [\<lparr>maxLength = 0, name = [], unbounded = True, uniqueValues = []\<rparr>,
                    \<lparr>maxLength = 0, name = [], unbounded = False, uniqueValues = [''a'']\<rparr>,
                    \<lparr>maxLength = 0, name = [], unbounded = True, uniqueValues = []\<rparr>,
                    \<lparr>maxLength = 0, name = [], unbounded = False, uniqueValues = [''b'']\<rparr>]\<rparr>
        '' '')
     ''x|n|a|y|b''))
     = Some [Some (Str ''x n''), Some (Str ''a''), Some (Str ''y''), None, Some (Str ''b'')]"
  by code_simp

section \<open>Accesses of the alignment\<close>










lemma appendExtra_chk_zero:
  "appendExtra_chk sep cols colIndex i 0 result = Inr (appendExtra sep cols colIndex i 0 result)"
  by simp











end
